theory Spec2Isabelle
  imports Main
begin

section \<open>Constants and errors\<close>

text \<open>
  The constants of \<^verbatim>\<open>main.go\<close> (and, with the same values, of the \<^verbatim>\<open>config\<close>
  package). Durations are Go's \<^verbatim>\<open>time.Duration\<close>: a count of nanoseconds.
\<close>

definition maxNotificationLength :: nat where
  "maxNotificationLength = 100"

definition retryDelay :: int where
  "retryDelay = 5 * 1000000000"

definition notifyDelay :: int where
  "notifyDelay = 500 * 1000000"

text \<open>Every error value the modelled functions build with \<^verbatim>\<open>fmt.Errorf\<close> or pass on.\<close>

datatype error =
    RateLimitError string
  | CreateRequestError string
  | FetchFailedAfter int string
  | AuthenticationFailed
  | StatusCodeError int
  | DecodeError string
  | FetchError string
  | TerminalNotifierNotInstalled
  | CommandError string
  | BeeepError string
  | NotifierError string
  | UnsupportedOS string

section \<open>The service record\<close>

text \<open>
  \<^verbatim>\<open>NotificationService\<close> of \<^verbatim>\<open>main.go\<close>; the \<^verbatim>\<open>Service\<close> of the
  \<^verbatim>\<open>notification\<close> package has the same fields. The limiter, the HTTP client, the
  channel, the wait group and the mutex are handles of the runtime: what they answer is
  given to the functions below as an environment.
\<close>

record NotificationService =
  lastCheckID :: int
  pollInterval :: int
  lastNotifyTime :: int
  retryAttempts :: int
  maxRetries :: int
  owner :: string
  repo :: string

section \<open>Fetching with bounded retry\<close>

text \<open>
  What one \<^verbatim>\<open>s.client.Do(req)\<close> gives: no response (a transport error), or a response
  with a status code and a body, which \<^verbatim>\<open>json.NewDecoder(resp.Body).Decode(&issues)\<close>
  either rejects or turns into a slice.
\<close>

datatype 'a body = Undecodable string | Decoded "'a list"

datatype 'a response = TransportError string | Response int "'a body"

text \<open>The observable steps of a fetch: a call of \<^verbatim>\<open>client.Do\<close> and a \<^verbatim>\<open>time.Sleep\<close>.\<close>

datatype fetch_event = HTTPDo int | SleepFor int

record 'a fetch_env =
  limiter_Wait :: "string option"
  NewRequest :: "string option"
  client_Do :: "int \<Rightarrow> 'a response"

text \<open>
  The loop \<^verbatim>\<open>for attempt := 0; attempt <= s.maxRetries; attempt++\<close> of
  \<^verbatim>\<open>fetchLatestIssues\<close>, entered at \<^verbatim>\<open>attempt\<close>. It returns what the function returns
  together with the steps taken. Leaving the loop by its condition returns the nil slice.
\<close>

function fetch_attempts ::
  "int \<Rightarrow> (int \<Rightarrow> 'a response) \<Rightarrow> int \<Rightarrow> (error + 'a list) \<times> fetch_event list" where
  "fetch_attempts maxR Do attempt =
     (if attempt \<le> maxR then
        (case Do attempt of
           TransportError e \<Rightarrow>
             if attempt = maxR then (Inl (FetchFailedAfter attempt e), [HTTPDo attempt])
             else (case fetch_attempts maxR Do (attempt + 1) of
                     (r, tr) \<Rightarrow> (r, HTTPDo attempt # SleepFor retryDelay # tr))
         | Response code b \<Rightarrow>
             if code = 401 then (Inl AuthenticationFailed, [HTTPDo attempt])
             else if code \<noteq> 200 then
               (if attempt = maxR then (Inl (StatusCodeError code), [HTTPDo attempt])
                else (case fetch_attempts maxR Do (attempt + 1) of
                        (r, tr) \<Rightarrow> (r, HTTPDo attempt # SleepFor retryDelay # tr)))
             else (case b of
                     Undecodable e \<Rightarrow> (Inl (DecodeError e), [HTTPDo attempt])
                   | Decoded xs \<Rightarrow> (Inr xs, [HTTPDo attempt])))
      else (Inr [], []))"
  by pat_completeness auto
termination
  by (relation "measure (\<lambda>(maxR, Do, attempt). nat (maxR + 1 - attempt))") auto

declare fetch_attempts.simps [simp del]

text \<open>
  \<^verbatim>\<open>fetchLatestIssues\<close> of \<^verbatim>\<open>main.go\<close> and of the \<^verbatim>\<open>notification\<close> package:
  the two differ in the element type of the slice and in where the constants live. The
  request itself (URL, headers) does not enter any result below.
\<close>

definition fetchLatestIssues ::
  "NotificationService \<Rightarrow> 'a fetch_env \<Rightarrow> (error + 'a list) \<times> fetch_event list" where
  "fetchLatestIssues s env =
     (case limiter_Wait env of
        Some e \<Rightarrow> (Inl (RateLimitError e), [])
      | None \<Rightarrow>
          (case NewRequest env of
             Some e \<Rightarrow> (Inl (CreateRequestError e), [])
           | None \<Rightarrow> fetch_attempts (maxRetries s) (client_Do env) 0))"

text \<open>
  A failure after which the loop goes on (when attempts remain): no response, or a
  status that is neither 200 nor 401.
\<close>

fun retryable :: "'a response \<Rightarrow> bool" where
  "retryable (TransportError e) = True"
| "retryable (Response code b) = (code \<noteq> 401 \<and> code \<noteq> 200)"

text \<open>The error returned when the last attempt fails in a retryable way.\<close>

fun exhausted_error :: "int \<Rightarrow> 'a response \<Rightarrow> error" where
  "exhausted_error attempt (TransportError e) = FetchFailedAfter attempt e"
| "exhausted_error attempt (Response code b) = StatusCodeError code"

text \<open>The steps of the attempts \<open>a, ..., k - 1\<close> when each is followed by a retry.\<close>

definition retries :: "int \<Rightarrow> int \<Rightarrow> fetch_event list" where
  "retries a k = concat (map (\<lambda>i. [HTTPDo i, SleepFor retryDelay]) [a..k - 1])"

definition attempts_made :: "fetch_event list \<Rightarrow> nat" where
  "attempts_made tr = length (filter (\<lambda>ev. case ev of HTTPDo i \<Rightarrow> True | SleepFor d \<Rightarrow> False) tr)"

definition sleeps_made :: "fetch_event list \<Rightarrow> int list" where
  "sleeps_made tr = concat (map (\<lambda>ev. case ev of HTTPDo i \<Rightarrow> [] | SleepFor d \<Rightarrow> [d]) tr)"

section \<open>Issues\<close>

text \<open>
  \<^verbatim>\<open>Issue\<close> of \<^verbatim>\<open>main.go\<close>, and \<^verbatim>\<open>issue.Issue\<close> of
  \<^verbatim>\<open>internal/issue/issue.go\<close>, which adds the pointer field \<^verbatim>\<open>PullRequest\<close>
  (\<open>None\<close> is nil). Identifiers and numbers are Go's \<^verbatim>\<open>int\<close>; the code only compares
  and prints them, so no arithmetic can overflow. A time is a count of nanoseconds.
\<close>

record PullRequest =
  URL :: string

record Issue =
  ID :: int
  Number :: int
  Title :: string
  CreatedAt :: int
  HTMLURL :: string
  State :: string

record issue_Issue = Issue +
  PullRequest :: "PullRequest option"

section \<open>The notification message\<close>

text \<open>
  \<^verbatim>\<open>%d\<close> of \<^verbatim>\<open>fmt.Sprintf\<close>: the decimal digits, with a minus sign before a negative
  number. A Go string is a sequence of bytes, as \<open>string\<close> is here, and \<^verbatim>\<open>len\<close>
  counts bytes.
\<close>

fun decimal :: "nat \<Rightarrow> string" where
  "decimal n =
     (if n < 10 then [''0123456789'' ! n]
      else decimal (n div 10) @ [''0123456789'' ! (n mod 10)])"

declare decimal.simps [simp del]

definition itoa :: "int \<Rightarrow> string" where
  "itoa i = (if i < 0 then CHR ''-'' # decimal (nat (- i)) else decimal (nat i))"

text \<open>
  \<^verbatim>\<open>formatIssueMessage\<close> of the \<^verbatim>\<open>notifier\<close> package:
  \<^verbatim>\<open>fmt.Sprintf("#%d: %s", issue.Number, issue.Title)\<close>. \<^verbatim>\<open>sendNotification\<close> starts
  from the same expression.
\<close>

definition formatIssueMessage :: "'a Issue_scheme \<Rightarrow> string" where
  "formatIssueMessage issue = ''#'' @ itoa (Number issue) @ '': '' @ Title issue"

text \<open>
  Lines 177 to 180 of \<^verbatim>\<open>sendNotification\<close>: the message, cut to
  \<^verbatim>\<open>message[:maxNotificationLength-3] + "..."\<close> when it is too long.
\<close>

definition sendNotification_message :: "'a Issue_scheme \<Rightarrow> string" where
  "sendNotification_message issue =
     (let message = ''#'' @ itoa (Number issue) @ '': '' @ Title issue
      in if length message > maxNotificationLength
         then take (maxNotificationLength - 3) message @ ''...''
         else message)"

section \<open>The clock and the platform\<close>

text \<open>
  The world outside the service: a clock and the record of what was done to it. A
  \<open>Sleep\<close> event carries the duration asked of \<^verbatim>\<open>time.Sleep\<close>; a \<open>Sink\<close> event
  carries the time at which a notification command or library was invoked, and the call.
\<close>

datatype sink_call = Exec "string list" | Beeep string string string

datatype world_event = Sleep int | Sink int sink_call

record world =
  now :: int
  trace :: "world_event list"

datatype goos = Darwin | Windows | Linux | OtherOS string

text \<open>What \<^verbatim>\<open>cmd.Run()\<close> returns: nil, an \<^verbatim>\<open>*exec.ExitError\<close>, or another error.\<close>

datatype run_result = RunOk | ExitError string | RunError string

text \<open>
  The environment of \<^verbatim>\<open>sendNotification\<close>: the value of \<^verbatim>\<open>runtime.GOOS\<close>, what the
  commands and \<^verbatim>\<open>beeep.Notify\<close> answer, and how long each step takes beyond what it was
  asked to. The answers may differ from call to call: they depend on the number of events
  so far.
\<close>

record notify_env =
  GOOS :: goos
  cmd_Run :: "nat \<Rightarrow> string list \<Rightarrow> run_result"
  beeep_Notify :: "nat \<Rightarrow> string \<Rightarrow> string \<Rightarrow> string \<Rightarrow> string option"
  took :: "nat \<Rightarrow> nat"

definition maxDuration :: int where
  "maxDuration = 9223372036854775807"

definition minDuration :: int where
  "minDuration = - 9223372036854775808"

text \<open>The zero \<^verbatim>\<open>time.Time\<close>, January 1 of year 1, in nanoseconds from the Unix epoch.\<close>

definition zero_Time :: int where
  "zero_Time = - 62135596800 * 1000000000"

text \<open>\<^verbatim>\<open>time.Since(t)\<close>: the difference, kept within the range of a duration.\<close>

definition time_Since :: "world \<Rightarrow> int \<Rightarrow> int" where
  "time_Since w t =
     (let d = now w - t
      in if d > maxDuration then maxDuration else if d < minDuration then minDuration else d)"

text \<open>\<^verbatim>\<open>time.Sleep(d)\<close> pauses for at least \<open>d\<close>; it returns at once when \<open>d \<le> 0\<close>.\<close>

definition time_Sleep :: "notify_env \<Rightarrow> int \<Rightarrow> world \<Rightarrow> world" where
  "time_Sleep env d w =
     w\<lparr>now := now w + (if d > 0 then d else 0) + int (took env (length (trace w))),
       trace := trace w @ [Sleep d]\<rparr>"

definition exec_Run :: "notify_env \<Rightarrow> string list \<Rightarrow> world \<Rightarrow> run_result \<times> world" where
  "exec_Run env argv w =
     (cmd_Run env (length (trace w)) argv,
      w\<lparr>now := now w + int (took env (length (trace w))),
        trace := trace w @ [Sink (now w) (Exec argv)]\<rparr>)"

definition beeep :: "notify_env \<Rightarrow> string \<Rightarrow> string \<Rightarrow> string \<Rightarrow> world \<Rightarrow> string option \<times> world" where
  "beeep env title message icon w =
     (beeep_Notify env (length (trace w)) title message icon,
      w\<lparr>now := now w + int (took env (length (trace w))),
        trace := trace w @ [Sink (now w) (Beeep title message icon)]\<rparr>)"

section \<open>Sending one notification\<close>

text \<open>
  The \<^verbatim>\<open>switch runtime.GOOS\<close> of \<^verbatim>\<open>sendNotification\<close>. \<open>Inl e\<close> is the
  \<^verbatim>\<open>return\<close> inside the \<^verbatim>\<open>darwin\<close> case; \<open>Inr err\<close> is the value of \<^verbatim>\<open>err\<close>
  with which the switch is left.
\<close>

definition click_to_open :: "string \<Rightarrow> string \<Rightarrow> string" where
  "click_to_open message url = message @ [CHR 0x0A, CHR 0x0A] @ ''Click to open: '' @ url"

definition platform_switch ::
  "notify_env \<Rightarrow> string \<Rightarrow> string \<Rightarrow> string \<Rightarrow> world \<Rightarrow> (error + error option) \<times> world" where
  "platform_switch env title message url w =
     (case GOOS env of
        Darwin \<Rightarrow>
          (case exec_Run env [''terminal-notifier'', ''-title'', title, ''-message'', message,
                              ''-open'', url, ''-sound'', ''default''] w of
             (RunOk, w') \<Rightarrow> (Inr None, w')
           | (ExitError e, w') \<Rightarrow> (Inl TerminalNotifierNotInstalled, w')
           | (RunError e, w') \<Rightarrow> (Inr (Some (CommandError e)), w'))
      | Windows \<Rightarrow>
          (case beeep env title (click_to_open message url) [] w of
             (r, w') \<Rightarrow> (Inr (map_option BeeepError r), w'))
      | Linux \<Rightarrow>
          (case exec_Run env [''notify-send'', title, message] w of
             (RunOk, w') \<Rightarrow> (Inr None, w')
           | (ExitError e, w') \<Rightarrow>
               (case beeep env title (click_to_open message url) [] w' of
                  (r, w'') \<Rightarrow> (Inr (map_option BeeepError r), w''))
           | (RunError e, w') \<Rightarrow>
               (case beeep env title (click_to_open message url) [] w' of
                  (r, w'') \<Rightarrow> (Inr (map_option BeeepError r), w'')))
      | OtherOS name \<Rightarrow> (Inr (Some (UnsupportedOS name)), w))"

text \<open>
  \<^verbatim>\<open>sendNotification\<close> of \<^verbatim>\<open>main.go\<close> and of the \<^verbatim>\<open>notification\<close> package. The
  mutex is held throughout, and nothing else runs. The early return of the
  \<^verbatim>\<open>darwin\<close> case leaves before \<^verbatim>\<open>s.lastNotifyTime = time.Now()\<close>.
\<close>

definition sendNotification ::
  "notify_env \<Rightarrow> 'a Issue_scheme \<Rightarrow> NotificationService \<times> world
     \<Rightarrow> error option \<times> NotificationService \<times> world" where
  "sendNotification env issue sw =
     (case sw of (s, w) \<Rightarrow>
        let w1 = (if time_Since w (lastNotifyTime s) < notifyDelay
                  then time_Sleep env notifyDelay w else w)
        in case platform_switch env ''New GitHub Issue'' (sendNotification_message issue)
                  (HTMLURL issue) w1 of
             (Inl e, w2) \<Rightarrow> (Some e, s, w2)
           | (Inr err, w2) \<Rightarrow> (err, s\<lparr>lastNotifyTime := now w2\<rparr>, w2))"

section \<open>One poll cycle\<close>

text \<open>
  The body of \<^verbatim>\<open>for _, issue := range issues\<close> in \<^verbatim>\<open>checkForNewIssues\<close>: an issue
  that is not new is skipped; a failed notification is logged and the loop continues; a
  sent one moves \<^verbatim>\<open>lastCheckID\<close> up.
\<close>

definition checkForNewIssues_step ::
  "notify_env \<Rightarrow> 'a Issue_scheme \<Rightarrow> NotificationService \<times> world \<Rightarrow> NotificationService \<times> world" where
  "checkForNewIssues_step env issue sw =
     (case sw of (s, w) \<Rightarrow>
        if ID issue > lastCheckID s then
          (case sendNotification env issue (s, w) of
             (Some err, s', w') \<Rightarrow> (s', w')
           | (None, s', w') \<Rightarrow>
               (if ID issue > lastCheckID s' then s'\<lparr>lastCheckID := ID issue\<rparr> else s', w'))
        else (s, w))"

fun checkForNewIssues_loop ::
  "notify_env \<Rightarrow> 'a Issue_scheme list \<Rightarrow> NotificationService \<times> world \<Rightarrow> NotificationService \<times> world" where
  "checkForNewIssues_loop env [] sw = sw"
| "checkForNewIssues_loop env (issue # issues) sw =
     checkForNewIssues_loop env issues (checkForNewIssues_step env issue sw)"

definition checkForNewIssues ::
  "notify_env \<Rightarrow> 'a Issue_scheme fetch_env \<Rightarrow> NotificationService \<times> world
     \<Rightarrow> error option \<times> NotificationService \<times> world" where
  "checkForNewIssues env fenv sw =
     (case fetchLatestIssues (fst sw) fenv of
        (Inl err, tr) \<Rightarrow> (Some err, sw)
      | (Inr issues, tr) \<Rightarrow> (None, checkForNewIssues_loop env issues sw))"

section \<open>The scheduler\<close>

text \<open>
  The struct literal of \<^verbatim>\<open>NewNotificationService\<close> and of \<^verbatim>\<open>NewService\<close> in the
  \<^verbatim>\<open>notification\<close> package; the fields it does not name have their zero values.
\<close>

definition NewService :: "string \<Rightarrow> string \<Rightarrow> int \<Rightarrow> NotificationService" where
  "NewService ownr rpo interval =
     \<lparr>lastCheckID = 0, pollInterval = interval, lastNotifyTime = zero_Time,
      retryAttempts = 0, maxRetries = 3, owner = ownr, repo = rpo\<rparr>"

text \<open>
  What the \<^verbatim>\<open>select\<close> of \<^verbatim>\<open>Start\<close> can receive: a tick (after some time, with the
  answers the fetch of that cycle will get), a signal or cancelled context, or a stop
  request. \<open>Start\<close> runs the first check and then serves the wake-ups given; with
  none left it is still waiting.
\<close>

datatype 'a wakeup = Tick nat "'a fetch_env" | Cancelled | Shutdown

fun Start_loop ::
  "notify_env \<Rightarrow> 'a Issue_scheme wakeup list \<Rightarrow> NotificationService \<times> world
     \<Rightarrow> NotificationService \<times> world" where
  "Start_loop env [] sw = sw"
| "Start_loop env (Tick dt fenv # ws) sw =
     Start_loop env ws
       (snd (checkForNewIssues env fenv (fst sw, (snd sw)\<lparr>now := now (snd sw) + int dt\<rparr>)))"
| "Start_loop env (Cancelled # ws) sw = sw"
| "Start_loop env (Shutdown # ws) sw = sw"

definition Start ::
  "notify_env \<Rightarrow> 'a Issue_scheme fetch_env \<Rightarrow> 'a Issue_scheme wakeup list
     \<Rightarrow> NotificationService \<times> world \<Rightarrow> NotificationService \<times> world" where
  "Start env fenv0 ws sw = Start_loop env ws (snd (checkForNewIssues env fenv0 sw))"

section \<open>The service built from a repository and a notifier\<close>

text \<open>
  \<^verbatim>\<open>Repository.FetchLatestIssues\<close> of \<^verbatim>\<open>internal/repository/repo.go\<close>: one request,
  no retry, and a loop that keeps the entries whose \<^verbatim>\<open>PullRequest\<close> is nil.
\<close>

fun filteredIssues_loop :: "issue_Issue list \<Rightarrow> issue_Issue list \<Rightarrow> issue_Issue list" where
  "filteredIssues_loop [] filteredIssues = filteredIssues"
| "filteredIssues_loop (issue # issues) filteredIssues =
     (if PullRequest issue = None then filteredIssues_loop issues (filteredIssues @ [issue])
      else filteredIssues_loop issues filteredIssues)"

definition FetchLatestIssues :: "issue_Issue fetch_env \<Rightarrow> error + issue_Issue list" where
  "FetchLatestIssues env =
     (case NewRequest env of
        Some e \<Rightarrow> Inl (CreateRequestError e)
      | None \<Rightarrow>
          (case client_Do env 0 of
             TransportError e \<Rightarrow> Inl (FetchError e)
           | Response code b \<Rightarrow>
               if code = 401 then Inl AuthenticationFailed
               else if code \<noteq> 200 then Inl (StatusCodeError code)
               else (case b of
                       Undecodable e \<Rightarrow> Inl (DecodeError e)
                     | Decoded issues \<Rightarrow> Inr (filteredIssues_loop issues []))))"

text \<open>
  The \<^verbatim>\<open>Notifier\<close> interface: what \<^verbatim>\<open>Notify(title, message, url)\<close> answers, which may
  depend on the number of earlier calls. \<^verbatim>\<open>IssueNotifier.NotifyNewIssue\<close> calls it once;
  the calls made are recorded.
\<close>

type_synonym notifier = "nat \<Rightarrow> string \<Rightarrow> string \<Rightarrow> string \<Rightarrow> string option"

type_synonym notify_call = "string \<times> string \<times> string"

definition NotifyNewIssue ::
  "notifier \<Rightarrow> 'a Issue_scheme \<Rightarrow> notify_call list \<Rightarrow> error option \<times> notify_call list" where
  "NotifyNewIssue n issue calls =
     (let title = ''New GitHub Issue''; message = formatIssueMessage issue
      in (map_option NotifierError (n (length calls) title message (HTMLURL issue)),
          calls @ [(title, message, HTMLURL issue)]))"

text \<open>\<^verbatim>\<open>Service\<close> of the \<^verbatim>\<open>service\<close> package, and the loop of its \<^verbatim>\<open>checkForNewIssues\<close>.\<close>

record Service =
  svc_lastCheckID :: int
  svc_pollInterval :: int
  svc_lastNotifyTime :: int

definition Service_checkForNewIssues_step ::
  "notifier \<Rightarrow> 'a Issue_scheme \<Rightarrow> Service \<times> notify_call list \<Rightarrow> Service \<times> notify_call list" where
  "Service_checkForNewIssues_step n issue sc =
     (case sc of (s, calls) \<Rightarrow>
        if ID issue > svc_lastCheckID s then
          (case NotifyNewIssue n issue calls of
             (Some err, calls') \<Rightarrow> (s, calls')
           | (None, calls') \<Rightarrow>
               (if ID issue > svc_lastCheckID s then s\<lparr>svc_lastCheckID := ID issue\<rparr> else s,
                calls'))
        else (s, calls))"

fun Service_checkForNewIssues_loop ::
  "notifier \<Rightarrow> 'a Issue_scheme list \<Rightarrow> Service \<times> notify_call list \<Rightarrow> Service \<times> notify_call list" where
  "Service_checkForNewIssues_loop n [] sc = sc"
| "Service_checkForNewIssues_loop n (issue # issues) sc =
     Service_checkForNewIssues_loop n issues (Service_checkForNewIssues_step n issue sc)"

definition Service_checkForNewIssues ::
  "notifier \<Rightarrow> issue_Issue fetch_env \<Rightarrow> Service \<times> notify_call list
     \<Rightarrow> error option \<times> Service \<times> notify_call list" where
  "Service_checkForNewIssues n fenv sc =
     (case limiter_Wait fenv of
        Some e \<Rightarrow> (Some (RateLimitError e), sc)
      | None \<Rightarrow>
          (case FetchLatestIssues fenv of
             Inl err \<Rightarrow> (Some err, sc)
           | Inr issues \<Rightarrow> (None, Service_checkForNewIssues_loop n issues sc)))"

fun Service_Start_loop ::
  "notifier \<Rightarrow> issue_Issue wakeup list \<Rightarrow> Service \<times> notify_call list \<Rightarrow> Service \<times> notify_call list" where
  "Service_Start_loop n [] sc = sc"
| "Service_Start_loop n (Tick dt fenv # ws) sc =
     Service_Start_loop n ws (snd (Service_checkForNewIssues n fenv sc))"
| "Service_Start_loop n (Cancelled # ws) sc = sc"
| "Service_Start_loop n (Shutdown # ws) sc = sc"

definition Service_Start ::
  "notifier \<Rightarrow> issue_Issue fetch_env \<Rightarrow> issue_Issue wakeup list \<Rightarrow> Service \<times> notify_call list
     \<Rightarrow> Service \<times> notify_call list" where
  "Service_Start n fenv0 ws sc = Service_Start_loop n ws (snd (Service_checkForNewIssues n fenv0 sc))"

text \<open>\<^verbatim>\<open>NewService\<close> of the \<^verbatim>\<open>service\<close> package leaves \<^verbatim>\<open>lastCheckID\<close> at its zero value.\<close>

definition Service_NewService :: "int \<Rightarrow> Service" where
  "Service_NewService interval =
     \<lparr>svc_lastCheckID = 0, svc_pollInterval = interval, svc_lastNotifyTime = zero_Time\<rparr>"

section \<open>Reading the record of the world\<close>

text \<open>
  The sink calls, their times and the sleeps of a list of events, and the events a step
  added to the world.
\<close>

fun sink_calls :: "world_event list \<Rightarrow> sink_call list" where
  "sink_calls [] = []"
| "sink_calls (Sleep d # evs) = sink_calls evs"
| "sink_calls (Sink t c # evs) = c # sink_calls evs"

fun sink_times :: "world_event list \<Rightarrow> int list" where
  "sink_times [] = []"
| "sink_times (Sleep d # evs) = sink_times evs"
| "sink_times (Sink t c # evs) = t # sink_times evs"

fun slept :: "world_event list \<Rightarrow> int list" where
  "slept [] = []"
| "slept (Sleep d # evs) = d # slept evs"
| "slept (Sink t c # evs) = slept evs"

definition new_events :: "world \<Rightarrow> world \<Rightarrow> world_event list" where
  "new_events w w' = drop (length (trace w)) (trace w')"


section \<open>Sample inputs\<close>

definition sample_issue :: "int \<Rightarrow> Issue" where
  "sample_issue n =
     \<lparr>ID = n, Number = n, Title = ''title'', CreatedAt = 0, HTMLURL = ''url'', State = ''open''\<rparr>"

definition windows_env :: "string option \<Rightarrow> notify_env" where
  "windows_env answer =
     \<lparr>GOOS = Windows, cmd_Run = (\<lambda>n argv. RunOk),
      beeep_Notify = (\<lambda>n title message icon. answer), took = (\<lambda>n. 0)\<rparr>"

definition sample_world :: world where
  "sample_world = \<lparr>now = 1000000000, trace = []\<rparr>"


definition pull_request_entry :: issue_Issue where
  "pull_request_entry =
     \<lparr>ID = 1347, Number = 12, Title = ''Fix typo'', CreatedAt = 0, HTMLURL = ''url'',
      State = ''open'', PullRequest = Some \<lparr>URL = ''pulls/12''\<rparr>\<rparr>"

definition darwin_env :: "run_result \<Rightarrow> notify_env" where
  "darwin_env first =
     \<lparr>GOOS = Darwin,
      cmd_Run = (\<lambda>n argv. if n = 0 then first else RunOk),
      beeep_Notify = (\<lambda>n title message icon. None), took = (\<lambda>n. 1000000)\<rparr>"






section \<open>Properties of the fetch loop\<close>

lemma fetch_attempts_last:
  "fetch_attempts maxR Do maxR =
     (case Do maxR of
        TransportError e \<Rightarrow> (Inl (FetchFailedAfter maxR e), [HTTPDo maxR])
      | Response code b \<Rightarrow>
          if code = 401 then (Inl AuthenticationFailed, [HTTPDo maxR])
          else if code \<noteq> 200 then (Inl (StatusCodeError code), [HTTPDo maxR])
          else (case b of Undecodable e \<Rightarrow> (Inl (DecodeError e), [HTTPDo maxR])
                | Decoded xs \<Rightarrow> (Inr xs, [HTTPDo maxR])))"
  by (subst fetch_attempts.simps) (simp split: response.splits body.splits)

lemma fetch_attempts_retry:
  assumes "attempt < maxR" and "retryable (Do attempt)"
  shows "fetch_attempts maxR Do attempt =
           (fst (fetch_attempts maxR Do (attempt + 1)),
            HTTPDo attempt # SleepFor retryDelay # snd (fetch_attempts maxR Do (attempt + 1)))"
proof (cases "Do attempt")
  case (TransportError e)
  with assms show ?thesis
    by (subst fetch_attempts.simps) (simp split: prod.splits)
next
  case (Response code b)
  with assms show ?thesis
    by (subst fetch_attempts.simps) (simp split: prod.splits)
qed

lemma fetch_attempts_past: "maxR < attempt \<Longrightarrow> fetch_attempts maxR Do attempt = (Inr [], [])"
  by (subst fetch_attempts.simps) simp

lemma fetch_attempts_auth:
  "attempt \<le> maxR \<Longrightarrow> Do attempt = Response 401 b \<Longrightarrow>
   fetch_attempts maxR Do attempt = (Inl AuthenticationFailed, [HTTPDo attempt])"
  by (subst fetch_attempts.simps) simp

lemma fetch_attempts_decode:
  "attempt \<le> maxR \<Longrightarrow> Do attempt = Response 200 (Undecodable e) \<Longrightarrow>
   fetch_attempts maxR Do attempt = (Inl (DecodeError e), [HTTPDo attempt])"
  by (subst fetch_attempts.simps) simp

lemma fetch_attempts_ok:
  "attempt \<le> maxR \<Longrightarrow> Do attempt = Response 200 (Decoded xs) \<Longrightarrow>
   fetch_attempts maxR Do attempt = (Inr xs, [HTTPDo attempt])"
  by (subst fetch_attempts.simps) simp

lemma retries_empty [simp]: "retries k k = []"
  by (simp add: retries_def)

lemma retries_step: "a < k \<Longrightarrow> retries a k = HTTPDo a # SleepFor retryDelay # retries (a + 1) k"
  by (simp add: retries_def upto_rec1 [of a "k - 1"])

lemma retries_snoc:
  "a \<le> k \<Longrightarrow> retries a (k + 1) = retries a k @ [HTTPDo k, SleepFor retryDelay]"
  by (simp add: retries_def upto_rec2 [of a k])

text \<open>Skipping a run of retried attempts: the loop entered at \<open>a\<close> reaches \<open>k\<close>.\<close>

lemma fetch_attempts_skip:
  assumes "a \<le> k" and "k \<le> maxR" and "\<forall>i. a \<le> i \<and> i < k \<longrightarrow> retryable (Do i)"
  shows "fetch_attempts maxR Do a =
           (fst (fetch_attempts maxR Do k), retries a k @ snd (fetch_attempts maxR Do k))"
  using assms
proof (induction "nat (k - a)" arbitrary: a)
  case 0
  then have "a = k" by simp
  then show ?case by simp
next
  case (Suc n)
  then have lt: "a < k" by linarith
  with Suc.prems have here: "a < maxR" "retryable (Do a)" by auto
  have "n = nat (k - (a + 1))" using Suc.hyps(2) by linarith
  moreover have "a + 1 \<le> k" using lt by simp
  moreover have "\<forall>i. a + 1 \<le> i \<and> i < k \<longrightarrow> retryable (Do i)" using Suc.prems(3) by simp
  ultimately have ih: "fetch_attempts maxR Do (a + 1) =
      (fst (fetch_attempts maxR Do k), retries (a + 1) k @ snd (fetch_attempts maxR Do k))"
    using Suc.hyps(1) Suc.prems(2) by blast
  show ?case
    using fetch_attempts_retry [of a maxR Do] here
    by (simp add: ih retries_step [OF lt])
qed

text \<open>The shape of every run of the loop: retried attempts, then one last attempt.\<close>

lemma fetch_attempts_shape:
  "attempt \<le> maxR \<Longrightarrow>
   \<exists>k. attempt \<le> k \<and> k \<le> maxR \<and>
       snd (fetch_attempts maxR Do attempt) = retries attempt k @ [HTTPDo k]"
proof (induction maxR Do attempt rule: fetch_attempts.induct)
  case (1 maxR Do attempt)
  show ?case
  proof (cases "attempt < maxR \<and> retryable (Do attempt)")
    case True
    then have more: "attempt < maxR" "retryable (Do attempt)" by simp_all
    have "\<exists>k. attempt + 1 \<le> k \<and> k \<le> maxR \<and>
        snd (fetch_attempts maxR Do (attempt + 1)) = retries (attempt + 1) k @ [HTTPDo k]"
    proof (cases "Do attempt")
      case (TransportError e)
      with "1.IH"(1) [of e] "1.prems" more show ?thesis by simp
    next
      case (Response code b)
      with "1.IH"(2) [of code b] "1.prems" more show ?thesis by simp
    qed
    then obtain k where k: "attempt + 1 \<le> k" "k \<le> maxR"
      "snd (fetch_attempts maxR Do (attempt + 1)) = retries (attempt + 1) k @ [HTTPDo k]"
      by blast
    have "attempt < k" using k(1) by simp
    then have "snd (fetch_attempts maxR Do attempt) = retries attempt k @ [HTTPDo k]"
      using fetch_attempts_retry [of attempt maxR Do] more
      by (simp add: k(3) retries_step)
    with k show ?thesis by (intro exI [of _ k]) simp
  next
    case False
    have "snd (fetch_attempts maxR Do attempt) = [HTTPDo attempt]"
      using False "1.prems"
      by (subst fetch_attempts.simps) (auto split: response.splits body.splits)
    then show ?thesis using "1.prems" by (intro exI [of _ attempt]) simp
  qed
qed

lemma attempts_made_retries: "a \<le> k \<Longrightarrow> attempts_made (retries a k) = nat (k - a)"
proof (induction "nat (k - a)" arbitrary: k)
  case 0
  then have "k = a" by simp
  then show ?case by (simp add: attempts_made_def)
next
  case (Suc n)
  then have "a \<le> k - 1" "n = nat (k - 1 - a)" by linarith+
  then have "attempts_made (retries a (k - 1)) = nat (k - 1 - a)"
    using Suc.hyps(1) by blast
  moreover have "retries a k = retries a (k - 1) @ [HTTPDo (k - 1), SleepFor retryDelay]"
    using retries_snoc [of a "k - 1"] \<open>a \<le> k - 1\<close> by simp
  ultimately show ?case using \<open>a \<le> k - 1\<close> by (simp add: attempts_made_def nat_diff_distrib)
qed

lemma sleeps_made_retries:
  "a \<le> k \<Longrightarrow> sleeps_made (retries a k) = replicate (nat (k - a)) retryDelay"
proof (induction "nat (k - a)" arbitrary: k)
  case 0
  then have "k = a" by simp
  then show ?case by (simp add: sleeps_made_def)
next
  case (Suc n)
  then have le: "a \<le> k - 1" and n: "n = nat (k - 1 - a)" by linarith+
  then have "sleeps_made (retries a (k - 1)) = replicate (nat (k - 1 - a)) retryDelay"
    using Suc.hyps(1) by blast
  moreover have "retries a k = retries a (k - 1) @ [HTTPDo (k - 1), SleepFor retryDelay]"
    using retries_snoc [of a "k - 1"] le by simp
  moreover have "nat (k - a) = Suc (nat (k - 1 - a))" using le by linarith
  ultimately show ?case
    by (simp add: sleeps_made_def replicate_append_same)
qed

lemma attempts_made_last: "a \<le> k \<Longrightarrow> attempts_made (retries a k @ [HTTPDo k]) = Suc (nat (k - a))"
  using attempts_made_retries [of a k] by (simp add: attempts_made_def)

lemma sleeps_made_last:
  "a \<le> k \<Longrightarrow> sleeps_made (retries a k @ [HTTPDo k]) = replicate (nat (k - a)) retryDelay"
  using sleeps_made_retries [of a k] by (simp add: sleeps_made_def)

lemma fetchLatestIssues_shape:
  "snd (fetchLatestIssues s env) = [] \<or>
   (\<exists>k. 0 \<le> k \<and> k \<le> maxRetries s \<and>
        snd (fetchLatestIssues s env) = retries 0 k @ [HTTPDo k])"
proof (cases "limiter_Wait env = None \<and> NewRequest env = None \<and> 0 \<le> maxRetries s")
  case True
  then show ?thesis
    using fetch_attempts_shape [of 0 "maxRetries s" "client_Do env"]
    by (simp add: fetchLatestIssues_def)
next
  case False
  then have "snd (fetchLatestIssues s env) = []"
    by (auto simp: fetchLatestIssues_def fetch_attempts_past split: option.splits)
  then show ?thesis by simp
qed

lemma fetchLatestIssues_reaches:
  assumes "limiter_Wait env = None" and "NewRequest env = None"
    and "0 \<le> k" and "k \<le> maxRetries s"
    and "\<forall>i. 0 \<le> i \<and> i < k \<longrightarrow> retryable (client_Do env i)"
  shows "fetchLatestIssues s env =
           (fst (fetch_attempts (maxRetries s) (client_Do env) k),
            retries 0 k @ snd (fetch_attempts (maxRetries s) (client_Do env) k))"
  using fetch_attempts_skip [of 0 k "maxRetries s" "client_Do env"] assms
  by (simp add: fetchLatestIssues_def)

section \<open>Claims about the fetch operation\<close>

text \<open>
  C4. Terminal failures are never retried. When the attempts before attempt \<open>k\<close> were
  retried and attempt \<open>k\<close> receives status 401, the fetch returns the authentication
  error and its last step is that attempt: no sleep and no attempt follows. The same holds
  when attempt \<open>k\<close> receives status 200 with a body that does not decode.
\<close>

theorem terminal_failures_not_retried:
  "(limiter_Wait env = None \<and> NewRequest env = None \<and> 0 \<le> k \<and> k \<le> maxRetries s \<and>
    (\<forall>i. 0 \<le> i \<and> i < k \<longrightarrow> retryable (client_Do env i)) \<and>
    client_Do env k = Response 401 b
    \<longrightarrow> fetchLatestIssues s env = (Inl AuthenticationFailed, retries 0 k @ [HTTPDo k])) \<and>
   (limiter_Wait env' = None \<and> NewRequest env' = None \<and> 0 \<le> k' \<and> k' \<le> maxRetries s' \<and>
    (\<forall>i. 0 \<le> i \<and> i < k' \<longrightarrow> retryable (client_Do env' i)) \<and>
    client_Do env' k' = Response 200 (Undecodable e)
    \<longrightarrow> fetchLatestIssues s' env' = (Inl (DecodeError e), retries 0 k' @ [HTTPDo k']))"
proof (intro conjI impI)
  assume h: "limiter_Wait env = None \<and> NewRequest env = None \<and> 0 \<le> k \<and> k \<le> maxRetries s \<and>
    (\<forall>i. 0 \<le> i \<and> i < k \<longrightarrow> retryable (client_Do env i)) \<and> client_Do env k = Response 401 b"
  then have "fetch_attempts (maxRetries s) (client_Do env) k = (Inl AuthenticationFailed, [HTTPDo k])"
    by (simp add: fetch_attempts_auth)
  with h show "fetchLatestIssues s env = (Inl AuthenticationFailed, retries 0 k @ [HTTPDo k])"
    using fetchLatestIssues_reaches [of env k s] by simp
next
  assume h: "limiter_Wait env' = None \<and> NewRequest env' = None \<and> 0 \<le> k' \<and> k' \<le> maxRetries s' \<and>
    (\<forall>i. 0 \<le> i \<and> i < k' \<longrightarrow> retryable (client_Do env' i)) \<and>
    client_Do env' k' = Response 200 (Undecodable e)"
  then have "fetch_attempts (maxRetries s') (client_Do env') k' = (Inl (DecodeError e), [HTTPDo k'])"
    by (simp add: fetch_attempts_decode)
  with h show "fetchLatestIssues s' env' = (Inl (DecodeError e), retries 0 k' @ [HTTPDo k'])"
    using fetchLatestIssues_reaches [of env' k' s'] by simp
qed

theorem terminal_failures_not_retried_witness:
  "fetchLatestIssues
     \<lparr>lastCheckID = 0, pollInterval = 0, lastNotifyTime = 0, retryAttempts = 0, maxRetries = 3,
      owner = ''o'', repo = ''r''\<rparr>
     \<lparr>limiter_Wait = None, NewRequest = None,
      client_Do = (\<lambda>i. if i = 0 then TransportError ''reset''
                        else Response 401 (Decoded ([] :: nat list)))\<rparr>
   = (Inl AuthenticationFailed, [HTTPDo 0, SleepFor retryDelay, HTTPDo 1]) \<and>
   fetchLatestIssues
     \<lparr>lastCheckID = 0, pollInterval = 0, lastNotifyTime = 0, retryAttempts = 0, maxRetries = 3,
      owner = ''o'', repo = ''r''\<rparr>
     \<lparr>limiter_Wait = None, NewRequest = None,
      client_Do = (\<lambda>i. Response 200 (Undecodable ''eof'' :: nat body))\<rparr>
   = (Inl (DecodeError ''eof''), [HTTPDo 0])"
  using terminal_failures_not_retried
    [of "\<lparr>limiter_Wait = None, NewRequest = None,
          client_Do = (\<lambda>i. if i = 0 then TransportError ''reset''
                            else Response 401 (Decoded ([] :: nat list)))\<rparr>"
        1
        "\<lparr>lastCheckID = 0, pollInterval = 0, lastNotifyTime = 0, retryAttempts = 0,
          maxRetries = 3, owner = ''o'', repo = ''r''\<rparr>"
        "Decoded []"
        "\<lparr>limiter_Wait = None, NewRequest = None,
          client_Do = (\<lambda>i. Response 200 (Undecodable ''eof'' :: nat body))\<rparr>"
        0
        "\<lparr>lastCheckID = 0, pollInterval = 0, lastNotifyTime = 0, retryAttempts = 0,
          maxRetries = 3, owner = ''o'', repo = ''r''\<rparr>"
        "''eof''"]
  by (simp add: retries_def if_distrib [of retryable])

text \<open>
  C5. The retry loop makes at most \<open>maxRetries + 1\<close> attempts; every sleep lasts
  \<open>retryDelay\<close> and there is exactly one between two consecutive attempts (the steps
  are attempt, sleep, attempt, ..., attempt); when every attempt fails in a retryable way
  the result is the error built from the last attempt's cause; and with
  \<open>maxRetries = 3\<close>, two transport failures followed by a success give the decoded
  issues after exactly two sleeps.
\<close>

theorem retry_loop_bounded:
  "attempts_made (snd (fetchLatestIssues s env)) \<le> nat (maxRetries s + 1) \<and>
   sleeps_made (snd (fetchLatestIssues s env)) =
     replicate (attempts_made (snd (fetchLatestIssues s env)) - 1) retryDelay \<and>
   (snd (fetchLatestIssues s env) = [] \<or>
    (\<exists>k. 0 \<le> k \<and> k \<le> maxRetries s \<and>
         snd (fetchLatestIssues s env) = retries 0 k @ [HTTPDo k])) \<and>
   (limiter_Wait env1 = None \<and> NewRequest env1 = None \<and> 0 \<le> maxRetries s1 \<and>
    (\<forall>i. 0 \<le> i \<and> i \<le> maxRetries s1 \<longrightarrow> retryable (client_Do env1 i))
    \<longrightarrow> fetchLatestIssues s1 env1 =
          (Inl (exhausted_error (maxRetries s1) (client_Do env1 (maxRetries s1))),
           retries 0 (maxRetries s1) @ [HTTPDo (maxRetries s1)]) \<and>
        attempts_made (snd (fetchLatestIssues s1 env1)) = nat (maxRetries s1 + 1)) \<and>
   (limiter_Wait env2 = None \<and> NewRequest env2 = None \<and> maxRetries s2 = 3 \<and>
    client_Do env2 0 = TransportError e0 \<and> client_Do env2 1 = TransportError e1 \<and>
    client_Do env2 2 = Response 200 (Decoded xs)
    \<longrightarrow> fetchLatestIssues s2 env2 =
          (Inr xs, [HTTPDo 0, SleepFor retryDelay, HTTPDo 1, SleepFor retryDelay, HTTPDo 2]) \<and>
        sleeps_made (snd (fetchLatestIssues s2 env2)) = [retryDelay, retryDelay])"
proof -
  let ?tr = "snd (fetchLatestIssues s env)"
  have shape: "?tr = [] \<or> (\<exists>k. 0 \<le> k \<and> k \<le> maxRetries s \<and> ?tr = retries 0 k @ [HTTPDo k])"
    by (rule fetchLatestIssues_shape)
  have count: "attempts_made ?tr \<le> nat (maxRetries s + 1)"
    using shape
  proof
    assume "?tr = []"
    then show ?thesis by (simp add: attempts_made_def)
  next
    assume "\<exists>k. 0 \<le> k \<and> k \<le> maxRetries s \<and> ?tr = retries 0 k @ [HTTPDo k]"
    then obtain k where k: "0 \<le> k" "k \<le> maxRetries s" "?tr = retries 0 k @ [HTTPDo k]" by blast
    then show ?thesis using attempts_made_last [of 0 k] by simp
  qed
  have sleeps: "sleeps_made ?tr = replicate (attempts_made ?tr - 1) retryDelay"
    using shape
  proof
    assume "?tr = []"
    then show ?thesis by (simp add: attempts_made_def sleeps_made_def)
  next
    assume "\<exists>k. 0 \<le> k \<and> k \<le> maxRetries s \<and> ?tr = retries 0 k @ [HTTPDo k]"
    then obtain k where k: "0 \<le> k" "k \<le> maxRetries s" "?tr = retries 0 k @ [HTTPDo k]" by blast
    then show ?thesis using attempts_made_last [of 0 k] sleeps_made_last [of 0 k] by simp
  qed
  have exhausted: "fetchLatestIssues s1 env1 =
          (Inl (exhausted_error (maxRetries s1) (client_Do env1 (maxRetries s1))),
           retries 0 (maxRetries s1) @ [HTTPDo (maxRetries s1)]) \<and>
        attempts_made (snd (fetchLatestIssues s1 env1)) = nat (maxRetries s1 + 1)"
    if h: "limiter_Wait env1 = None \<and> NewRequest env1 = None \<and> 0 \<le> maxRetries s1 \<and>
      (\<forall>i. 0 \<le> i \<and> i \<le> maxRetries s1 \<longrightarrow> retryable (client_Do env1 i))"
  proof -
    from h have r: "retryable (client_Do env1 (maxRetries s1))" by simp
    have last: "fetch_attempts (maxRetries s1) (client_Do env1) (maxRetries s1) =
        (Inl (exhausted_error (maxRetries s1) (client_Do env1 (maxRetries s1))),
         [HTTPDo (maxRetries s1)])"
      using r by (cases "client_Do env1 (maxRetries s1)") (simp_all add: fetch_attempts_last)
    have eq: "fetchLatestIssues s1 env1 =
          (Inl (exhausted_error (maxRetries s1) (client_Do env1 (maxRetries s1))),
           retries 0 (maxRetries s1) @ [HTTPDo (maxRetries s1)])"
      using h fetchLatestIssues_reaches [of env1 "maxRetries s1" s1] by (simp add: last)
    show ?thesis
      using h attempts_made_last [of 0 "maxRetries s1"] by (simp add: eq nat_add_distrib)
  qed
  have example: "fetchLatestIssues s2 env2 =
          (Inr xs, [HTTPDo 0, SleepFor retryDelay, HTTPDo 1, SleepFor retryDelay, HTTPDo 2]) \<and>
        sleeps_made (snd (fetchLatestIssues s2 env2)) = [retryDelay, retryDelay]"
    if h: "limiter_Wait env2 = None \<and> NewRequest env2 = None \<and> maxRetries s2 = 3 \<and>
      client_Do env2 0 = TransportError e0 \<and> client_Do env2 1 = TransportError e1 \<and>
      client_Do env2 2 = Response 200 (Decoded xs)"
  proof -
    have two: "fetch_attempts 3 (client_Do env2) 2 = (Inr xs, [HTTPDo 2])"
      using h by (simp add: fetch_attempts_ok)
    have one: "fetch_attempts 3 (client_Do env2) 1 =
        (Inr xs, [HTTPDo 1, SleepFor retryDelay, HTTPDo 2])"
      using h fetch_attempts_retry [of 1 3 "client_Do env2"] by (simp add: two)
    have zero: "fetch_attempts 3 (client_Do env2) 0 =
        (Inr xs, [HTTPDo 0, SleepFor retryDelay, HTTPDo 1, SleepFor retryDelay, HTTPDo 2])"
      using h fetch_attempts_retry [of 0 3 "client_Do env2"] by (simp add: one)
    show ?thesis using h by (simp add: fetchLatestIssues_def zero sleeps_made_def)
  qed
  show ?thesis using shape count sleeps exhausted example by blast
qed

theorem retry_loop_bounded_witness:
  "fetchLatestIssues
     \<lparr>lastCheckID = 0, pollInterval = 0, lastNotifyTime = 0, retryAttempts = 0, maxRetries = 1,
      owner = ''o'', repo = ''r''\<rparr>
     \<lparr>limiter_Wait = None, NewRequest = None,
      client_Do = (\<lambda>i. if i = 0 then TransportError ''reset''
                        else Response 503 (Decoded ([] :: nat list)))\<rparr>
   = (Inl (StatusCodeError 503), [HTTPDo 0, SleepFor retryDelay, HTTPDo 1]) \<and>
   fetchLatestIssues
     \<lparr>lastCheckID = 0, pollInterval = 0, lastNotifyTime = 0, retryAttempts = 0, maxRetries = 3,
      owner = ''o'', repo = ''r''\<rparr>
     \<lparr>limiter_Wait = None, NewRequest = None,
      client_Do = (\<lambda>i. if i < 2 then TransportError ''reset''
                        else Response 200 (Decoded [7 :: nat]))\<rparr>
   = (Inr [7], [HTTPDo 0, SleepFor retryDelay, HTTPDo 1, SleepFor retryDelay, HTTPDo 2])"
  using retry_loop_bounded
    [of "\<lparr>lastCheckID = 0, pollInterval = 0, lastNotifyTime = 0, retryAttempts = 0,
          maxRetries = 1, owner = ''o'', repo = ''r''\<rparr>"
        "\<lparr>limiter_Wait = None, NewRequest = None,
          client_Do = (\<lambda>i. if i = 0 then TransportError ''reset''
                            else Response 503 (Decoded ([] :: nat list)))\<rparr>"
        "\<lparr>limiter_Wait = None, NewRequest = None,
          client_Do = (\<lambda>i. if i = 0 then TransportError ''reset''
                            else Response 503 (Decoded ([] :: nat list)))\<rparr>"
        "\<lparr>lastCheckID = 0, pollInterval = 0, lastNotifyTime = 0, retryAttempts = 0,
          maxRetries = 1, owner = ''o'', repo = ''r''\<rparr>"
        "\<lparr>limiter_Wait = None, NewRequest = None,
          client_Do = (\<lambda>i. if i < 2 then TransportError ''reset''
                            else Response 200 (Decoded [7 :: nat]))\<rparr>"
        "\<lparr>lastCheckID = 0, pollInterval = 0, lastNotifyTime = 0, retryAttempts = 0,
          maxRetries = 3, owner = ''o'', repo = ''r''\<rparr>"
        "''reset''" "''reset''" "[7]"]
  by (simp add: retries_def if_distrib [of retryable])

section \<open>Properties of the poll cycle\<close>

lemma sendNotification_lastCheckID:
  "lastCheckID (fst (snd (sendNotification env issue (s, w)))) = lastCheckID s"
  by (simp add: sendNotification_def Let_def split: prod.splits sum.splits)

lemma step_skip:
  "ID issue \<le> lastCheckID s \<Longrightarrow> checkForNewIssues_step env issue (s, w) = (s, w)"
  by (simp add: checkForNewIssues_step_def)

lemma step_sent:
  assumes "lastCheckID s < ID issue" and "fst (sendNotification env issue (s, w)) = None"
  shows "lastCheckID (fst (checkForNewIssues_step env issue (s, w))) = max (lastCheckID s) (ID issue)"
    and "snd (checkForNewIssues_step env issue (s, w)) = snd (snd (sendNotification env issue (s, w)))"
  using assms sendNotification_lastCheckID [of env issue s w]
  by (auto simp: checkForNewIssues_step_def split: prod.splits option.splits)


lemma step_mono:
  "lastCheckID (fst sw) \<le> lastCheckID (fst (checkForNewIssues_step env issue sw))"
proof (cases sw)
  case (Pair s w)
  then show ?thesis
    using sendNotification_lastCheckID [of env issue s w]
    by (auto simp: checkForNewIssues_step_def split: prod.splits option.splits)
qed

lemma loop_mono:
  "lastCheckID (fst sw) \<le> lastCheckID (fst (checkForNewIssues_loop env issues sw))"
proof (induction issues arbitrary: sw)
  case Nil
  show ?case by simp
next
  case (Cons issue issues)
  have "lastCheckID (fst sw) \<le> lastCheckID (fst (checkForNewIssues_step env issue sw))"
    by (rule step_mono)
  also have "\<dots> \<le> lastCheckID (fst (checkForNewIssues_loop env issues (checkForNewIssues_step env issue sw)))"
    by (rule Cons.IH)
  finally show ?case by simp
qed

lemma loop_append:
  "checkForNewIssues_loop env (xs @ ys) sw =
   checkForNewIssues_loop env ys (checkForNewIssues_loop env xs sw)"
  by (induction xs arbitrary: sw) simp_all

lemma loop_filter:
  "b \<le> lastCheckID (fst sw) \<Longrightarrow>
   checkForNewIssues_loop env (filter (\<lambda>i. b < ID i) issues) sw =
   checkForNewIssues_loop env issues sw"
proof (induction issues arbitrary: sw)
  case Nil
  show ?case by simp
next
  case (Cons issue issues)
  have next_ok: "b \<le> lastCheckID (fst (checkForNewIssues_step env issue sw))"
    using Cons.prems step_mono [of sw env issue] by linarith
  show ?case
  proof (cases "b < ID issue")
    case True
    then show ?thesis using Cons.IH [OF next_ok] by simp
  next
    case False
    then have "checkForNewIssues_step env issue sw = sw"
      using Cons.prems step_skip [of issue "fst sw" env "snd sw"] by simp
    with False show ?thesis using Cons.IH [OF Cons.prems] by simp
  qed
qed

lemma cycle_mono:
  "lastCheckID (fst sw) \<le> lastCheckID (fst (snd (checkForNewIssues env fenv sw)))"
  by (simp add: checkForNewIssues_def loop_mono split: prod.splits sum.splits)

lemma Start_loop_mono:
  "lastCheckID (fst sw) \<le> lastCheckID (fst (Start_loop env ws sw))"
proof (induction env ws sw rule: Start_loop.induct)
  case (2 env dt fenv ws sw)
  have "lastCheckID (fst sw) \<le>
        lastCheckID (fst (snd (checkForNewIssues env fenv
          (fst sw, (snd sw)\<lparr>now := now (snd sw) + int dt\<rparr>))))"
    using cycle_mono [of "(fst sw, (snd sw)\<lparr>now := now (snd sw) + int dt\<rparr>)" env fenv] by simp
  with 2 show ?case by simp
qed simp_all

lemma Start_loop_prefix:
  "lastCheckID (fst (Start_loop env ws sw)) \<le> lastCheckID (fst (Start_loop env (ws @ ws') sw))"
proof (induction env ws sw rule: Start_loop.induct)
  case (1 env sw)
  show ?case using Start_loop_mono [of sw env ws'] by simp
qed simp_all

lemma Service_step_skip:
  "ID issue \<le> svc_lastCheckID s \<Longrightarrow> Service_checkForNewIssues_step n issue (s, calls) = (s, calls)"
  by (simp add: Service_checkForNewIssues_step_def)

lemma Service_step_mono:
  "svc_lastCheckID (fst sc) \<le> svc_lastCheckID (fst (Service_checkForNewIssues_step n issue sc))"
  by (cases sc) (auto simp: Service_checkForNewIssues_step_def split: prod.splits option.splits)

lemma Service_loop_mono:
  "svc_lastCheckID (fst sc) \<le> svc_lastCheckID (fst (Service_checkForNewIssues_loop n issues sc))"
proof (induction issues arbitrary: sc)
  case Nil
  show ?case by simp
next
  case (Cons issue issues)
  have "svc_lastCheckID (fst sc) \<le> svc_lastCheckID (fst (Service_checkForNewIssues_step n issue sc))"
    by (rule Service_step_mono)
  also have "\<dots> \<le> svc_lastCheckID (fst (Service_checkForNewIssues_loop n issues
                        (Service_checkForNewIssues_step n issue sc)))"
    by (rule Cons.IH)
  finally show ?case by simp
qed

lemma Service_loop_append:
  "Service_checkForNewIssues_loop n (xs @ ys) sc =
   Service_checkForNewIssues_loop n ys (Service_checkForNewIssues_loop n xs sc)"
  by (induction xs arbitrary: sc) simp_all

lemma Service_loop_filter:
  "b \<le> svc_lastCheckID (fst sc) \<Longrightarrow>
   Service_checkForNewIssues_loop n (filter (\<lambda>i. b < ID i) issues) sc =
   Service_checkForNewIssues_loop n issues sc"
proof (induction issues arbitrary: sc)
  case Nil
  show ?case by simp
next
  case (Cons issue issues)
  have next_ok: "b \<le> svc_lastCheckID (fst (Service_checkForNewIssues_step n issue sc))"
    using Cons.prems Service_step_mono [of sc n issue] by linarith
  show ?case
  proof (cases "b < ID issue")
    case True
    then show ?thesis using Cons.IH [OF next_ok] by simp
  next
    case False
    then have "Service_checkForNewIssues_step n issue sc = sc"
      using Cons.prems Service_step_skip [of issue "fst sc" n "snd sc"] by simp
    with False show ?thesis using Cons.IH [OF Cons.prems] by simp
  qed
qed

lemma Service_cycle_mono:
  "svc_lastCheckID (fst sc) \<le> svc_lastCheckID (fst (snd (Service_checkForNewIssues n fenv sc)))"
  by (simp add: Service_checkForNewIssues_def Service_loop_mono split: option.splits sum.splits)

lemma Service_Start_loop_mono:
  "svc_lastCheckID (fst sc) \<le> svc_lastCheckID (fst (Service_Start_loop n ws sc))"
proof (induction n ws sc rule: Service_Start_loop.induct)
  case (2 n dt fenv ws sc)
  have "svc_lastCheckID (fst sc) \<le> svc_lastCheckID (fst (snd (Service_checkForNewIssues n fenv sc)))"
    by (rule Service_cycle_mono)
  with 2 show ?case by simp
qed simp_all

lemma Service_Start_loop_prefix:
  "svc_lastCheckID (fst (Service_Start_loop n ws sc)) \<le>
   svc_lastCheckID (fst (Service_Start_loop n (ws @ ws') sc))"
proof (induction n ws sc rule: Service_Start_loop.induct)
  case (1 n sc)
  show ?case using Service_Start_loop_mono [of sc n ws'] by simp
qed simp_all

text \<open>
  C3. \<^verbatim>\<open>lastCheckID\<close> never decreases: not over one issue, not over one cycle
  (whether the fetch fails or not), and not as \<^verbatim>\<open>Start\<close> serves more wake-ups; it
  starts at 0 and so stays at or above 0. The same holds for the \<^verbatim>\<open>service\<close> package.
\<close>

theorem lastCheckID_monotone:
  "lastCheckID (fst sw) \<le> lastCheckID (fst (checkForNewIssues_step env issue sw)) \<and>
   lastCheckID (fst sw) \<le> lastCheckID (fst (snd (checkForNewIssues env fenv sw))) \<and>
   lastCheckID (fst (Start env fenv ws sw)) \<le> lastCheckID (fst (Start env fenv (ws @ ws') sw)) \<and>
   lastCheckID (NewService ownr rpo interval) = 0 \<and>
   0 \<le> lastCheckID (fst (Start env fenv ws (NewService ownr rpo interval, w))) \<and>
   svc_lastCheckID (fst sc) \<le> svc_lastCheckID (fst (Service_checkForNewIssues_step n issue' sc)) \<and>
   svc_lastCheckID (fst sc) \<le> svc_lastCheckID (fst (snd (Service_checkForNewIssues n fenv' sc))) \<and>
   svc_lastCheckID (fst (Service_Start n fenv' ws1 sc)) \<le>
     svc_lastCheckID (fst (Service_Start n fenv' (ws1 @ ws1') sc)) \<and>
   svc_lastCheckID (Service_NewService interval) = 0 \<and>
   0 \<le> svc_lastCheckID (fst (Service_Start n fenv' ws1 (Service_NewService interval, calls)))"
proof -
  have a: "0 \<le> lastCheckID (fst (Start env fenv ws (NewService ownr rpo interval, w)))"
  proof -
    have "lastCheckID (fst (NewService ownr rpo interval, w)) \<le>
          lastCheckID (fst (snd (checkForNewIssues env fenv (NewService ownr rpo interval, w))))"
      by (rule cycle_mono)
    also have "\<dots> \<le> lastCheckID (fst (Start env fenv ws (NewService ownr rpo interval, w)))"
      unfolding Start_def by (rule Start_loop_mono)
    finally show ?thesis by (simp add: NewService_def)
  qed
  have b: "0 \<le> svc_lastCheckID (fst (Service_Start n fenv' ws1 (Service_NewService interval, calls)))"
  proof -
    have "svc_lastCheckID (fst (Service_NewService interval, calls)) \<le>
          svc_lastCheckID (fst (snd (Service_checkForNewIssues n fenv'
            (Service_NewService interval, calls))))"
      by (rule Service_cycle_mono)
    also have "\<dots> \<le> svc_lastCheckID (fst (Service_Start n fenv' ws1
            (Service_NewService interval, calls)))"
      unfolding Service_Start_def by (rule Service_Start_loop_mono)
    finally show ?thesis by (simp add: Service_NewService_def)
  qed
  show ?thesis
    using a b
    by (simp add: step_mono cycle_mono Service_step_mono Service_cycle_mono Start_def
        Service_Start_def Start_loop_prefix Service_Start_loop_prefix NewService_def
        Service_NewService_def)
qed

text \<open>
  C1. An issue whose ID is at most \<^verbatim>\<open>lastCheckID\<close> when the loop reaches it is never
  passed on: its step leaves the service and the world (the record of sink calls) as they
  were, wherever it stands in the batch, so the batch behaves as the batch without it; in
  particular every issue with an ID at or below the \<^verbatim>\<open>lastCheckID\<close> of the start of the
  cycle can be dropped. The same holds for the \<^verbatim>\<open>service\<close> package.
\<close>

theorem not_new_never_sent:
  "(ID issue \<le> lastCheckID s \<longrightarrow> checkForNewIssues_step env issue (s, w) = (s, w)) \<and>
   (ID issue \<le> lastCheckID (fst (checkForNewIssues_loop env pre (s, w))) \<longrightarrow>
      checkForNewIssues_loop env (pre @ issue # post) (s, w) =
      checkForNewIssues_loop env (pre @ post) (s, w)) \<and>
   checkForNewIssues_loop env (filter (\<lambda>i. lastCheckID s < ID i) issues) (s, w) =
     checkForNewIssues_loop env issues (s, w) \<and>
   (ID issue \<le> svc_lastCheckID s' \<longrightarrow>
      Service_checkForNewIssues_step n issue (s', calls) = (s', calls)) \<and>
   (ID issue \<le> svc_lastCheckID (fst (Service_checkForNewIssues_loop n pre (s', calls))) \<longrightarrow>
      Service_checkForNewIssues_loop n (pre @ issue # post) (s', calls) =
      Service_checkForNewIssues_loop n (pre @ post) (s', calls)) \<and>
   Service_checkForNewIssues_loop n (filter (\<lambda>i. svc_lastCheckID s' < ID i) issues) (s', calls) =
     Service_checkForNewIssues_loop n issues (s', calls)"
proof (intro conjI impI)
  assume "ID issue \<le> lastCheckID s"
  then show "checkForNewIssues_step env issue (s, w) = (s, w)" by (rule step_skip)
next
  assume h: "ID issue \<le> lastCheckID (fst (checkForNewIssues_loop env pre (s, w)))"
  obtain s1 w1 where mid: "checkForNewIssues_loop env pre (s, w) = (s1, w1)"
    by (cases "checkForNewIssues_loop env pre (s, w)")
  with h have "checkForNewIssues_step env issue (s1, w1) = (s1, w1)"
    by (simp add: step_skip)
  then show "checkForNewIssues_loop env (pre @ issue # post) (s, w) =
      checkForNewIssues_loop env (pre @ post) (s, w)"
    by (simp add: loop_append mid)
next
  show "checkForNewIssues_loop env (filter (\<lambda>i. lastCheckID s < ID i) issues) (s, w) =
     checkForNewIssues_loop env issues (s, w)"
    by (rule loop_filter) simp
next
  assume "ID issue \<le> svc_lastCheckID s'"
  then show "Service_checkForNewIssues_step n issue (s', calls) = (s', calls)"
    by (rule Service_step_skip)
next
  assume h: "ID issue \<le> svc_lastCheckID (fst (Service_checkForNewIssues_loop n pre (s', calls)))"
  obtain s1 c1 where mid: "Service_checkForNewIssues_loop n pre (s', calls) = (s1, c1)"
    by (cases "Service_checkForNewIssues_loop n pre (s', calls)")
  with h have "Service_checkForNewIssues_step n issue (s1, c1) = (s1, c1)"
    by (simp add: Service_step_skip)
  then show "Service_checkForNewIssues_loop n (pre @ issue # post) (s', calls) =
      Service_checkForNewIssues_loop n (pre @ post) (s', calls)"
    by (simp add: Service_loop_append mid)
next
  show "Service_checkForNewIssues_loop n (filter (\<lambda>i. svc_lastCheckID s' < ID i) issues) (s', calls) =
     Service_checkForNewIssues_loop n issues (s', calls)"
    by (rule Service_loop_filter) simp
qed

lemma windows_env_sends:
  "sendNotification (windows_env None) issue (s, w) =
     (None,
      s\<lparr>lastNotifyTime := now (if time_Since w (lastNotifyTime s) < notifyDelay
                                then time_Sleep (windows_env None) notifyDelay w else w)\<rparr>,
      snd (beeep (windows_env None) ''New GitHub Issue''
             (click_to_open (sendNotification_message issue) (HTMLURL issue)) []
             (if time_Since w (lastNotifyTime s) < notifyDelay
              then time_Sleep (windows_env None) notifyDelay w else w)))"
  by (simp add: sendNotification_def platform_switch_def windows_env_def beeep_def Let_def)

theorem not_new_never_sent_witness:
  "checkForNewIssues_step (windows_env None) (sample_issue 3) (NewService ''o'' ''r'' 60\<lparr>lastCheckID := 5\<rparr>, sample_world)
     = (NewService ''o'' ''r'' 60\<lparr>lastCheckID := 5\<rparr>, sample_world) \<and>
   checkForNewIssues_loop (windows_env None) ([sample_issue 7] @ sample_issue 3 # [sample_issue 2])
       (NewService ''o'' ''r'' 60\<lparr>lastCheckID := 5\<rparr>, sample_world)
     = checkForNewIssues_loop (windows_env None) ([sample_issue 7] @ [sample_issue 2])
       (NewService ''o'' ''r'' 60\<lparr>lastCheckID := 5\<rparr>, sample_world) \<and>
   Service_checkForNewIssues_step (\<lambda>k title message url. None) (sample_issue 3)
       (Service_NewService 60\<lparr>svc_lastCheckID := 5\<rparr>, [])
     = (Service_NewService 60\<lparr>svc_lastCheckID := 5\<rparr>, []) \<and>
   Service_checkForNewIssues_loop (\<lambda>k title message url. None)
       ([sample_issue 7] @ sample_issue 3 # [sample_issue 2])
       (Service_NewService 60\<lparr>svc_lastCheckID := 5\<rparr>, [])
     = Service_checkForNewIssues_loop (\<lambda>k title message url. None)
       ([sample_issue 7] @ [sample_issue 2])
       (Service_NewService 60\<lparr>svc_lastCheckID := 5\<rparr>, [])"
proof -
  have a: "ID (sample_issue 3) \<le> lastCheckID (NewService ''o'' ''r'' 60\<lparr>lastCheckID := 5\<rparr>)"
    by (simp add: sample_issue_def)
  have b: "ID (sample_issue 3) \<le> lastCheckID (fst (checkForNewIssues_loop (windows_env None)
       [sample_issue 7] (NewService ''o'' ''r'' 60\<lparr>lastCheckID := 5\<rparr>, sample_world)))"
    by (simp add: sample_issue_def checkForNewIssues_step_def windows_env_sends)
  have c: "ID (sample_issue 3) \<le> svc_lastCheckID (Service_NewService 60\<lparr>svc_lastCheckID := 5\<rparr>)"
    by (simp add: sample_issue_def)
  have d: "ID (sample_issue 3) \<le> svc_lastCheckID (fst (Service_checkForNewIssues_loop
       (\<lambda>k title message url. None) [sample_issue 7]
       (Service_NewService 60\<lparr>svc_lastCheckID := 5\<rparr>, [])))"
    by (simp add: sample_issue_def Service_checkForNewIssues_step_def NotifyNewIssue_def
        Service_NewService_def)
  show ?thesis
    using a b c d
      not_new_never_sent [where issue = "sample_issue 3"
        and s = "NewService ''o'' ''r'' 60\<lparr>lastCheckID := 5\<rparr>"
        and env = "windows_env None" and w = sample_world
        and pre = "[sample_issue 7]" and post = "[sample_issue 2]" and issues = "[]"
        and s' = "Service_NewService 60\<lparr>svc_lastCheckID := 5\<rparr>"
        and n = "\<lambda>k title message url. None" and calls = "[]"]
    by blast
qed


lemma Service_step_dispatches:
  "svc_lastCheckID s < ID issue \<Longrightarrow>
   Service_checkForNewIssues_step n issue (s, calls) =
     (case NotifyNewIssue n issue calls of
        (Some err, calls') \<Rightarrow> (s, calls')
      | (None, calls') \<Rightarrow> (s\<lparr>svc_lastCheckID := ID issue\<rparr>, calls'))"
  by (auto simp: Service_checkForNewIssues_step_def split: prod.splits option.splits)

text \<open>
  C2. After a notification that was sent without error, \<^verbatim>\<open>lastCheckID\<close> is the maximum
  of its old value and the issue's ID, and no step ever lowers it. A batch with the IDs
  50, 70, 60 in this order, started below 50 with every notification succeeding, ends
  with \<^verbatim>\<open>lastCheckID\<close> at 70. The same holds for the \<^verbatim>\<open>service\<close> package.
\<close>

theorem lastCheckID_max_update:
  "(lastCheckID s < ID issue \<and> fst (sendNotification env issue (s, w)) = None \<longrightarrow>
      lastCheckID (fst (checkForNewIssues_step env issue (s, w))) = max (lastCheckID s) (ID issue)) \<and>
   lastCheckID s \<le> lastCheckID (fst (checkForNewIssues_step env issue (s, w))) \<and>
   (ID (a :: 'a Issue_scheme) = 50 \<and> ID b = 70 \<and> ID c = 60 \<and> lastCheckID s1 < 50 \<and>
    (\<forall>(i :: 'a Issue_scheme) s w. fst (sendNotification env1 i (s, w)) = None) \<longrightarrow>
      lastCheckID (fst (checkForNewIssues_loop env1 [a, b, c] (s1, w1))) = 70) \<and>
   (svc_lastCheckID s' < ID issue \<and> fst (NotifyNewIssue n issue calls) = None \<longrightarrow>
      svc_lastCheckID (fst (Service_checkForNewIssues_step n issue (s', calls))) =
        max (svc_lastCheckID s') (ID issue)) \<and>
   svc_lastCheckID s' \<le> svc_lastCheckID (fst (Service_checkForNewIssues_step n issue (s', calls))) \<and>
   (ID a = 50 \<and> ID b = 70 \<and> ID c = 60 \<and> svc_lastCheckID s1' < 50 \<and>
    (\<forall>(i :: 'a Issue_scheme) calls. fst (NotifyNewIssue n1 i calls) = None) \<longrightarrow>
      svc_lastCheckID (fst (Service_checkForNewIssues_loop n1 [a, b, c] (s1', calls1))) = 70)"
proof (intro conjI impI)
  assume "lastCheckID s < ID issue \<and> fst (sendNotification env issue (s, w)) = None"
  then show "lastCheckID (fst (checkForNewIssues_step env issue (s, w))) = max (lastCheckID s) (ID issue)"
    using step_sent(1) [of s issue env w] by simp
next
  show "lastCheckID s \<le> lastCheckID (fst (checkForNewIssues_step env issue (s, w)))"
    using step_mono [of "(s, w)" env issue] by simp
next
  assume h: "ID a = 50 \<and> ID b = 70 \<and> ID c = 60 \<and> lastCheckID s1 < 50 \<and>
    (\<forall>(i :: 'a Issue_scheme) s w. fst (sendNotification env1 i (s, w)) = None)"
  from h have ok: "\<And>(i :: 'a Issue_scheme) s w. fst (sendNotification env1 i (s, w)) = None"
    by blast
  obtain s2 w2 where one: "checkForNewIssues_step env1 a (s1, w1) = (s2, w2)"
    by (cases "checkForNewIssues_step env1 a (s1, w1)")
  have l2: "lastCheckID s2 = 50"
    using h step_sent(1) [of s1 a env1 w1] one ok [of a s1 w1] by simp
  obtain s3 w3 where two: "checkForNewIssues_step env1 b (s2, w2) = (s3, w3)"
    by (cases "checkForNewIssues_step env1 b (s2, w2)")
  have l3: "lastCheckID s3 = 70"
    using h l2 step_sent(1) [of s2 b env1 w2] two ok [of b s2 w2] by simp
  have three: "checkForNewIssues_step env1 c (s3, w3) = (s3, w3)"
    using h l3 by (simp add: step_skip)
  show "lastCheckID (fst (checkForNewIssues_loop env1 [a, b, c] (s1, w1))) = 70"
    by (simp add: one two three l3)
next
  assume "svc_lastCheckID s' < ID issue \<and> fst (NotifyNewIssue n issue calls) = None"
  then show "svc_lastCheckID (fst (Service_checkForNewIssues_step n issue (s', calls))) =
        max (svc_lastCheckID s') (ID issue)"
    by (auto simp: Service_step_dispatches split: prod.splits option.splits)
next
  show "svc_lastCheckID s' \<le> svc_lastCheckID (fst (Service_checkForNewIssues_step n issue (s', calls)))"
    using Service_step_mono [of "(s', calls)" n issue] by simp
next
  assume h: "ID a = 50 \<and> ID b = 70 \<and> ID c = 60 \<and> svc_lastCheckID s1' < 50 \<and>
    (\<forall>(i :: 'a Issue_scheme) calls. fst (NotifyNewIssue n1 i calls) = None)"
  have sent: "\<And>(i :: 'a Issue_scheme) (st :: Service) cs. svc_lastCheckID st < ID i \<Longrightarrow>
      svc_lastCheckID (fst (Service_checkForNewIssues_step n1 i (st, cs))) = ID i"
  proof -
    fix i :: "'a Issue_scheme" and st :: Service and cs
    assume lt: "svc_lastCheckID st < ID i"
    from h have "fst (NotifyNewIssue n1 i cs) = None" by blast
    with lt show "svc_lastCheckID (fst (Service_checkForNewIssues_step n1 i (st, cs))) = ID i"
      by (auto simp: Service_step_dispatches split: prod.splits option.splits)
  qed
  obtain s2 c2 where one: "Service_checkForNewIssues_step n1 a (s1', calls1) = (s2, c2)"
    by (cases "Service_checkForNewIssues_step n1 a (s1', calls1)")
  have l2: "svc_lastCheckID s2 = 50"
    using h sent [of s1' a calls1] one by simp
  obtain s3 c3 where two: "Service_checkForNewIssues_step n1 b (s2, c2) = (s3, c3)"
    by (cases "Service_checkForNewIssues_step n1 b (s2, c2)")
  have l3: "svc_lastCheckID s3 = 70"
    using h l2 sent [of s2 b c2] two by simp
  have three: "Service_checkForNewIssues_step n1 c (s3, c3) = (s3, c3)"
    using h l3 by (simp add: Service_step_skip)
  show "svc_lastCheckID (fst (Service_checkForNewIssues_loop n1 [a, b, c] (s1', calls1))) = 70"
    by (simp add: one two three l3)
qed

theorem lastCheckID_max_update_witness:
  "lastCheckID (fst (checkForNewIssues_step (windows_env None) (sample_issue 7)
      (NewService ''o'' ''r'' 60, sample_world))) = 7 \<and>
   lastCheckID (fst (checkForNewIssues_loop (windows_env None)
      [sample_issue 50, sample_issue 70, sample_issue 60]
      (NewService ''o'' ''r'' 60, sample_world))) = 70 \<and>
   svc_lastCheckID (fst (Service_checkForNewIssues_step (\<lambda>k title message url. None) (sample_issue 7)
      (Service_NewService 60, []))) = 7 \<and>
   svc_lastCheckID (fst (Service_checkForNewIssues_loop (\<lambda>k title message url. None)
      [sample_issue 50, sample_issue 70, sample_issue 60] (Service_NewService 60, []))) = 70"
proof -
  have a: "lastCheckID (NewService ''o'' ''r'' 60) < ID (sample_issue 7)"
    "lastCheckID (NewService ''o'' ''r'' 60) < 50"
    "max (lastCheckID (NewService ''o'' ''r'' 60)) (ID (sample_issue 7)) = 7"
    by (simp_all add: NewService_def sample_issue_def)
  have b: "\<forall>i s w. fst (sendNotification (windows_env None) (i :: Issue) (s, w)) = None"
    by (simp add: windows_env_sends)
  have c: "ID (sample_issue 50) = 50 \<and> ID (sample_issue 70) = 70 \<and> ID (sample_issue 60) = 60"
    by (simp add: sample_issue_def)
  have d: "svc_lastCheckID (Service_NewService 60) < ID (sample_issue 7)"
    "svc_lastCheckID (Service_NewService 60) < 50"
    "max (svc_lastCheckID (Service_NewService 60)) (ID (sample_issue 7)) = 7"
    by (simp_all add: Service_NewService_def sample_issue_def)
  have e: "\<forall>i calls. fst (NotifyNewIssue (\<lambda>k title message url. None) (i :: Issue) calls) = None"
    by (simp add: NotifyNewIssue_def)
  note T = lastCheckID_max_update [where s = "NewService ''o'' ''r'' 60" and issue = "sample_issue 7"
        and env = "windows_env None" and w = sample_world
        and a = "sample_issue 50" and b = "sample_issue 70" and c = "sample_issue 60"
        and ?s1.0 = "NewService ''o'' ''r'' 60" and ?env1.0 = "windows_env None"
        and ?w1.0 = sample_world
        and s' = "Service_NewService 60" and n = "\<lambda>k title message url. None" and calls = "[]"
        and ?s1' = "Service_NewService 60" and ?n1.0 = "\<lambda>k title message url. None"
        and ?calls1.0 = "[]"]
  have p1: "lastCheckID (fst (checkForNewIssues_step (windows_env None) (sample_issue 7)
      (NewService ''o'' ''r'' 60, sample_world))) = 7"
    using T a b by metis
  have p2: "lastCheckID (fst (checkForNewIssues_loop (windows_env None)
      [sample_issue 50, sample_issue 70, sample_issue 60]
      (NewService ''o'' ''r'' 60, sample_world))) = 70"
    using T a b c by blast
  have p3: "svc_lastCheckID (fst (Service_checkForNewIssues_step (\<lambda>k title message url. None)
      (sample_issue 7) (Service_NewService 60, []))) = 7"
    using T d e by metis
  have p4: "svc_lastCheckID (fst (Service_checkForNewIssues_loop (\<lambda>k title message url. None)
      [sample_issue 50, sample_issue 70, sample_issue 60] (Service_NewService 60, []))) = 70"
    using T c d e by blast
  show ?thesis using p1 p2 p3 p4 by blast
qed

section \<open>Properties of a single notification\<close>

lemma sink_calls_append [simp]: "sink_calls (xs @ ys) = sink_calls xs @ sink_calls ys"
  by (induction xs rule: sink_calls.induct) simp_all

lemma slept_append [simp]: "slept (xs @ ys) = slept xs @ slept ys"
  by (induction xs rule: slept.induct) simp_all

lemma sink_times_append [simp]: "sink_times (xs @ ys) = sink_times xs @ sink_times ys"
  by (induction xs rule: sink_times.induct) simp_all

lemma platform_switch_no_sleep:
  "slept (new_events w (snd (platform_switch env title message url w))) = []"
  by (simp add: platform_switch_def exec_Run_def beeep_def new_events_def
      split: goos.splits run_result.splits)

lemma platform_switch_extends:
  "\<exists>evs. trace (snd (platform_switch env title message url w)) = trace w @ evs"
  by (simp add: platform_switch_def exec_Run_def beeep_def
      split: goos.splits run_result.splits)

lemma sendNotification_world:
  "snd (snd (sendNotification env issue (s, w))) =
     snd (platform_switch env ''New GitHub Issue'' (sendNotification_message issue) (HTMLURL issue)
       (if time_Since w (lastNotifyTime s) < notifyDelay then time_Sleep env notifyDelay w else w))"
  by (simp add: sendNotification_def Let_def split: prod.splits sum.splits)

section \<open>Pull requests, the flood guard\<close>

lemma filteredIssues_loop_filter:
  "filteredIssues_loop issues acc = acc @ filter (\<lambda>issue. PullRequest issue = None) issues"
  by (induction issues arbitrary: acc) simp_all

lemma FetchLatestIssues_excludes_pull_requests:
  "FetchLatestIssues env = Inr issues \<Longrightarrow>
   (\<forall>issue \<in> set issues. PullRequest issue = None) \<and>
   (\<exists>decoded. client_Do env 0 = Response 200 (Decoded decoded) \<and>
      issues = filter (\<lambda>issue. PullRequest issue = None) decoded)"
  by (auto simp: FetchLatestIssues_def filteredIssues_loop_filter
      split: option.splits response.splits body.splits if_splits)

text \<open>
  C7. The claim is that a fetch never returns an entry whose pull-request field is set.
  \<^verbatim>\<open>Repository.FetchLatestIssues\<close> keeps that promise, as the lemma above shows. The
  \<^verbatim>\<open>fetchLatestIssues\<close> of the \<^verbatim>\<open>notification\<close> package (and of \<^verbatim>\<open>main.go\<close>) has
  no such loop: on a response whose only entry carries a pull-request field it returns
  that entry, where \<^verbatim>\<open>Repository.FetchLatestIssues\<close> returns nothing.
\<close>

theorem fetchLatestIssues_keeps_pull_request:
  "fetchLatestIssues (NewService ''o'' ''r'' 60)
     \<lparr>limiter_Wait = None, NewRequest = None,
      client_Do = (\<lambda>attempt. Response 200 (Decoded [pull_request_entry]))\<rparr>
     = (Inr [pull_request_entry], [HTTPDo 0]) \<and>
   PullRequest pull_request_entry \<noteq> None \<and>
   FetchLatestIssues
     \<lparr>limiter_Wait = None, NewRequest = None,
      client_Do = (\<lambda>attempt. Response 200 (Decoded [pull_request_entry]))\<rparr>
     = Inr []"
  by (simp add: fetchLatestIssues_def NewService_def fetch_attempts_ok FetchLatestIssues_def
      pull_request_entry_def)

lemma time_Since_ge:
  "\<not> time_Since w t < notifyDelay \<Longrightarrow> t + notifyDelay \<le> now w"
  by (simp add: time_Since_def Let_def notifyDelay_def maxDuration_def minDuration_def
      split: if_splits)

lemma platform_switch_times:
  "\<forall>t \<in> set (sink_times (new_events w (snd (platform_switch env title message url w)))).
     now w \<le> t"
  by (simp add: platform_switch_def exec_Run_def beeep_def new_events_def
      split: goos.splits run_result.splits)

lemma platform_switch_now:
  "(\<forall>t \<in> set (sink_times (new_events w (snd (platform_switch env title message url w)))).
     t \<le> now (snd (platform_switch env title message url w))) \<and>
   now w \<le> now (snd (platform_switch env title message url w))"
  by (simp add: platform_switch_def exec_Run_def beeep_def new_events_def
      split: goos.splits run_result.splits)

text \<open>On every path that records the time, the flood guard holds.\<close>

lemma sendNotification_waits:
  assumes "lastNotifyTime s \<le> now w"
  shows "\<forall>t \<in> set (sink_times (new_events w (snd (snd (sendNotification env issue (s, w)))))).
           lastNotifyTime s + notifyDelay \<le> t"
proof -
  let ?w1 = "if time_Since w (lastNotifyTime s) < notifyDelay then time_Sleep env notifyDelay w else w"
  let ?w2 = "snd (platform_switch env ''New GitHub Issue'' (sendNotification_message issue)
       (HTMLURL issue) ?w1)"
  have start: "lastNotifyTime s + notifyDelay \<le> now ?w1"
    using assms time_Since_ge [of w "lastNotifyTime s"]
    by (auto simp: time_Sleep_def notifyDelay_def)
  obtain evs where evs: "trace ?w2 = trace ?w1 @ evs"
    using platform_switch_extends by blast
  have "sink_times (new_events w ?w2) = sink_times evs"
    by (simp add: new_events_def evs time_Sleep_def)
  moreover have "\<forall>t \<in> set (sink_times evs). now ?w1 \<le> t"
    using platform_switch_times [of ?w1 env "''New GitHub Issue''"
        "sendNotification_message issue" "HTMLURL issue"]
    by (simp add: new_events_def evs)
  ultimately show ?thesis
    using start by (fastforce simp: sendNotification_world)
qed

lemma sendNotification_records:
  assumes "fst (sendNotification env issue (s, w)) \<noteq> Some TerminalNotifierNotInstalled"
  shows "lastNotifyTime (fst (snd (sendNotification env issue (s, w)))) =
           now (snd (snd (sendNotification env issue (s, w))))"
  using assms
  by (auto simp: sendNotification_def platform_switch_def exec_Run_def beeep_def Let_def
      split: prod.splits sum.splits goos.splits run_result.splits)

text \<open>
  C8. The claim is that two consecutive sink calls are at least \<^verbatim>\<open>notifyDelay\<close> apart.
  The two lemmas above give it on every path that reaches
  \<^verbatim>\<open>s.lastNotifyTime = time.Now()\<close>. On \<^verbatim>\<open>darwin\<close>, when \<^verbatim>\<open>terminal-notifier\<close>
  leaves with an exit error, \<^verbatim>\<open>sendNotification\<close> returns before that line: with two new
  issues in a batch and a command that takes one millisecond, the second sink call comes
  one millisecond after the first. Had the command failed in any other way, the second
  call would come 502 milliseconds after the first.
\<close>

theorem darwin_exit_error_skips_flood_guard:
  "sink_times (trace (snd (checkForNewIssues_loop (darwin_env (ExitError ''exit status 1''))
      [sample_issue 8, sample_issue 9] (NewService ''o'' ''r'' 60, sample_world))))
     = [1000000000, 1001000000] \<and>
   1001000000 - 1000000000 < notifyDelay \<and>
   sink_times (trace (snd (checkForNewIssues_loop (darwin_env (RunError ''not found''))
      [sample_issue 8, sample_issue 9] (NewService ''o'' ''r'' 60, sample_world))))
     = [1000000000, 1502000000]"
  by (simp add: checkForNewIssues_step_def sendNotification_def platform_switch_def exec_Run_def
      darwin_env_def NewService_def sample_world_def sample_issue_def time_Since_def
      time_Sleep_def zero_Time_def maxDuration_def minDuration_def notifyDelay_def Let_def)

lemma sendNotification_sleeps:
  "slept (new_events w (snd (snd (sendNotification env issue (s, w))))) =
     (if time_Since w (lastNotifyTime s) < notifyDelay then [notifyDelay] else [])"
proof -
  let ?w1 = "if time_Since w (lastNotifyTime s) < notifyDelay then time_Sleep env notifyDelay w else w"
  let ?w2 = "snd (platform_switch env ''New GitHub Issue'' (sendNotification_message issue)
       (HTMLURL issue) ?w1)"
  obtain evs where evs: "trace ?w2 = trace ?w1 @ evs"
    using platform_switch_extends by blast
  have "slept evs = []"
    using platform_switch_no_sleep [of ?w1 env "''New GitHub Issue''"
        "sendNotification_message issue" "HTMLURL issue"]
    by (simp add: new_events_def evs)
  then show ?thesis
    by (simp add: sendNotification_world new_events_def evs time_Sleep_def)
qed

text \<open>
  C9, as the code has it. When less than \<^verbatim>\<open>notifyDelay\<close> has passed since
  \<^verbatim>\<open>lastNotifyTime\<close>, \<^verbatim>\<open>sendNotification\<close> first sleeps for the whole
  \<^verbatim>\<open>notifyDelay\<close>, not for what remains of it, and then makes its sink calls without
  another sleep; otherwise it does not sleep at all.
\<close>

theorem flood_guard_sleeps_full_delay:
  "(time_Since w (lastNotifyTime s) < notifyDelay \<longrightarrow>
      (\<exists>evs. new_events w (snd (snd (sendNotification env issue (s, w)))) = Sleep notifyDelay # evs \<and>
             slept evs = [])) \<and>
   (\<not> time_Since w (lastNotifyTime s) < notifyDelay \<longrightarrow>
      slept (new_events w (snd (snd (sendNotification env issue (s, w))))) = [])"
proof (intro conjI impI)
  let ?w1 = "time_Sleep env notifyDelay w"
  let ?w2 = "snd (platform_switch env ''New GitHub Issue'' (sendNotification_message issue)
       (HTMLURL issue) ?w1)"
  assume short: "time_Since w (lastNotifyTime s) < notifyDelay"
  obtain evs where evs: "trace ?w2 = trace ?w1 @ evs"
    using platform_switch_extends by blast
  have quiet: "slept evs = []"
    using platform_switch_no_sleep [of ?w1 env "''New GitHub Issue''"
        "sendNotification_message issue" "HTMLURL issue"]
    by (simp add: new_events_def evs)
  have first: "trace ?w1 = trace w @ [Sleep notifyDelay]"
    by (simp add: time_Sleep_def)
  have "new_events w (snd (snd (sendNotification env issue (s, w)))) = Sleep notifyDelay # evs"
    using short by (simp add: sendNotification_world new_events_def evs first)
  with quiet show "\<exists>evs. new_events w (snd (snd (sendNotification env issue (s, w)))) =
      Sleep notifyDelay # evs \<and> slept evs = []"
    by blast
next
  assume "\<not> time_Since w (lastNotifyTime s) < notifyDelay"
  then show "slept (new_events w (snd (snd (sendNotification env issue (s, w))))) = []"
    by (simp add: sendNotification_sleeps)
qed

theorem flood_guard_sleeps_full_delay_witness:
  "new_events sample_world (snd (snd (sendNotification (windows_env None) (sample_issue 7)
      (NewService ''o'' ''r'' 60\<lparr>lastNotifyTime := 900000000\<rparr>, sample_world))))
     = [Sleep 500000000,
        Sink 1500000000 (Beeep ''New GitHub Issue'' (click_to_open ''#7: title'' ''url'') [])] \<and>
   slept (new_events sample_world (snd (snd (sendNotification (windows_env None) (sample_issue 7)
      (NewService ''o'' ''r'' 60, sample_world))))) = []"
proof -
  have short: "time_Since sample_world
      (lastNotifyTime (NewService ''o'' ''r'' 60\<lparr>lastNotifyTime := 900000000\<rparr>)) < notifyDelay"
    by (simp add: time_Since_def sample_world_def notifyDelay_def maxDuration_def
        minDuration_def Let_def)
  have long: "\<not> time_Since sample_world (lastNotifyTime (NewService ''o'' ''r'' 60)) < notifyDelay"
    by (simp add: time_Since_def sample_world_def notifyDelay_def maxDuration_def
        minDuration_def NewService_def zero_Time_def Let_def)
  have a: "\<exists>evs. new_events sample_world (snd (snd (sendNotification (windows_env None)
      (sample_issue 7) (NewService ''o'' ''r'' 60\<lparr>lastNotifyTime := 900000000\<rparr>, sample_world))))
      = Sleep notifyDelay # evs \<and> slept evs = []"
    using flood_guard_sleeps_full_delay [of sample_world
        "NewService ''o'' ''r'' 60\<lparr>lastNotifyTime := 900000000\<rparr>" "windows_env None"
        "sample_issue 7"] short by blast
  have b: "slept (new_events sample_world (snd (snd (sendNotification (windows_env None)
      (sample_issue 7) (NewService ''o'' ''r'' 60, sample_world))))) = []"
    using flood_guard_sleeps_full_delay [of sample_world "NewService ''o'' ''r'' 60"
        "windows_env None" "sample_issue 7"] long by blast
  have c: "new_events sample_world (snd (snd (sendNotification (windows_env None) (sample_issue 7)
      (NewService ''o'' ''r'' 60\<lparr>lastNotifyTime := 900000000\<rparr>, sample_world))))
     = [Sleep 500000000,
        Sink 1500000000 (Beeep ''New GitHub Issue'' (click_to_open ''#7: title'' ''url'') [])]"
    unfolding windows_env_sends new_events_def
    by (simp add: beeep_def time_Sleep_def time_Since_def sample_world_def windows_env_def
        notifyDelay_def maxDuration_def minDuration_def sendNotification_message_def
        sample_issue_def itoa_def decimal.simps maxNotificationLength_def Let_def)
  show ?thesis using a b c by simp
qed

text \<open>
  C9 as claimed fails: 100 milliseconds after the last notification the remaining delay is
  400 milliseconds, and the sleep is 500 milliseconds.
\<close>

theorem flood_guard_remaining_delay_counterexample:
  "time_Since sample_world
      (lastNotifyTime (NewService ''o'' ''r'' 60\<lparr>lastNotifyTime := 900000000\<rparr>)) = 100000000 \<and>
   100000000 < notifyDelay \<and>
   slept (new_events sample_world (snd (snd (sendNotification (windows_env None) (sample_issue 7)
      (NewService ''o'' ''r'' 60\<lparr>lastNotifyTime := 900000000\<rparr>, sample_world)))))
     = [500000000] \<and>
   [500000000] \<noteq> [notifyDelay - 100000000]"
proof -
  have e: "time_Since sample_world
      (lastNotifyTime (NewService ''o'' ''r'' 60\<lparr>lastNotifyTime := 900000000\<rparr>)) = 100000000"
    by (simp add: time_Since_def sample_world_def maxDuration_def minDuration_def Let_def)
  then show ?thesis
    by (simp add: sendNotification_sleeps notifyDelay_def)
qed

section \<open>The message handed to the sink\<close>









section \<open>A failed notification and the later cycles\<close>






























end
